theory Spec2Isabelle
  imports Complex_Main "HOL-Library.AList"
begin

section \<open>Values, errors and dictionaries\<close>

text \<open>
  The script \<^verbatim>\<open>example_relativistic_ppo.py\<close> wires a dataset, a policy trainer, a
  tokenizer and a sentiment classifier into a generate / score / update loop.  Token
  tensors are one-dimensional lists of token ids, texts are strings, scores are reals
  that the script only passes on (it does no arithmetic on them).
\<close>

type_synonym token = int
type_synonym tensor = "token list"
type_synonym score = real

text \<open>The per-item values a dataset record holds (after \<^verbatim>\<open>set_format(type="torch")\<close>).\<close>

datatype pyval = Tensor tensor | Str string | Num int

text \<open>
  Every \<^verbatim>\<open>raise\<close> is a value: the Python exceptions the script's own expressions can
  raise, and \<open>ExternalError\<close> for whatever an external capability raises.
\<close>

datatype error = IndexError | KeyError string | TypeError | ValueError | ExternalError nat

text \<open>A Python \<^verbatim>\<open>dict\<close> with string keys, in insertion order.\<close>

type_synonym 'v dict = "(string \<times> 'v) list"

definition getitem :: "'v dict \<Rightarrow> string \<Rightarrow> error + 'v" where
  "getitem d key = (case map_of d key of None \<Rightarrow> Inl (KeyError key) | Some v \<Rightarrow> Inr v)"

definition setitem :: "'v dict \<Rightarrow> string \<Rightarrow> 'v \<Rightarrow> 'v dict" where
  "setitem d key v = AList.update key v d"

definition dict_keys :: "'v dict \<Rightarrow> string list" where
  "dict_keys d = map fst d"

definition dict_of_pairs :: "(string \<times> 'v) list \<Rightarrow> 'v dict" where
  "dict_of_pairs ps = foldl (\<lambda>d (k, v). setitem d k v) [] ps"

text \<open>A comprehension whose body can raise: the first exception ends it.\<close>

fun try_map :: "('a \<Rightarrow> error + 'b) \<Rightarrow> 'a list \<Rightarrow> error + 'b list" where
  "try_map f [] = Inr []"
| "try_map f (x # xs) =
     (case f x of
        Inl e \<Rightarrow> Inl e
      | Inr y \<Rightarrow> (case try_map f xs of Inl e \<Rightarrow> Inl e | Inr ys \<Rightarrow> Inr (y # ys)))"

section \<open>The collator\<close>

text \<open>
  \<^verbatim>\<open>def collator(data): return dict((key, [d[key] for d in data]) for key in data[0])\<close>

  \<^verbatim>\<open>data[0]\<close> raises IndexError on an empty list and \<^verbatim>\<open>d[key]\<close> raises KeyError for
  a record without the key.
\<close>

definition collator :: "'v dict list \<Rightarrow> error + ('v list) dict" where
  "collator data =
     (case data of
        [] \<Rightarrow> Inl IndexError
      | d0 # _ \<Rightarrow>
          (case try_map
                  (\<lambda>key. case try_map (\<lambda>d. getitem d key) data of
                            Inl e \<Rightarrow> Inl e
                          | Inr col \<Rightarrow> Inr (key, col))
                  (dict_keys d0) of
             Inl e \<Rightarrow> Inl e
           | Inr ps \<Rightarrow> Inr (dict_of_pairs ps)))"

section \<open>Configuration and external capabilities\<close>

text \<open>
  \<^verbatim>\<open>generation_kwargs\<close>: a module-level dict; the loop writes its
  \<^verbatim>\<open>max_new_tokens\<close> entry before every generation (absent before the first one).
\<close>

record gen_kwargs =
  min_length :: int
  top_k :: real
  top_p :: real
  do_sample :: bool
  pad_token_id :: int
  max_new_tokens :: "nat option"

text \<open>\<^verbatim>\<open>sent_kwargs = {"top_k": None, "function_to_apply": "none", "batch_size": 16}\<close>\<close>

record pipe_kwargs =
  pipe_top_k :: "nat option"
  function_to_apply :: string
  batch_size :: nat

definition sent_kwargs :: pipe_kwargs where
  "sent_kwargs = \<lparr>pipe_top_k = None, function_to_apply = ''none'', batch_size = 16\<rparr>"

text \<open>One \<^verbatim>\<open>{"label": ..., "score": ...}\<close> entry of a classifier output.\<close>

record pipe_item =
  label :: string
  score_of :: score

type_synonym batch_t = "(pyval list) dict"
type_synonym stats = "(string \<times> real) list"

text \<open>
  The capabilities the script calls but does not define.  Each can raise.  \<open>'m\<close> is
  the trainer's mutable state (model parameters, optimiser, sampling state, logging
  sink); \<open>rand_raw\<close> and \<open>rand_next\<close> are the global NumPy generator: the raw draw at a
  generator state and the state after it.  Only the length sampler draws from the NumPy
  generator; generation samples with the trainer's own state.  A call of \<open>generate\<close> is
  for one query and returns one sequence of token ids.  \<open>torch_tensor\<close> is
  \<^verbatim>\<open>torch.tensor\<close> on a Python float: the single-precision value the score is stored
  as, which need not be the score itself.
\<close>

record 'm env =
  eos_token_id :: int
  rand_raw :: "nat \<Rightarrow> nat"
  rand_next :: "nat \<Rightarrow> nat"
  generate :: "'m \<Rightarrow> pyval \<Rightarrow> gen_kwargs \<Rightarrow> error + (tensor \<times> 'm)"
  decode :: "tensor \<Rightarrow> error + string"
  sentiment_pipe :: "string list \<Rightarrow> pipe_kwargs \<Rightarrow> error + pipe_item list list"
  torch_tensor :: "score \<Rightarrow> score"
  step :: "'m \<Rightarrow> pyval list \<Rightarrow> tensor list \<Rightarrow> tensor list \<Rightarrow> score list \<Rightarrow> score list
             \<Rightarrow> error + (stats \<times> 'm)"
  log_stats :: "'m \<Rightarrow> stats \<Rightarrow> batch_t \<Rightarrow> score list \<Rightarrow> error + 'm"

text \<open>
  The calls made to the trainer and to the classifier, in order, each with its arguments
  and with what it returned or raised.
\<close>

datatype event =
    Generate pyval gen_kwargs "error + tensor"
  | SentimentPipe "string list" pipe_kwargs "error + pipe_item list list"
  | Step "pyval list" "tensor list" "tensor list" "score list" "score list" "error + stats"
  | LogStats stats batch_t "score list" "error + unit"

text \<open>
  Everything the loop reads and writes: the NumPy generator state, the trainer, the
  \<^verbatim>\<open>generation_kwargs\<close> dict, the current \<^verbatim>\<open>batch\<close> (which \<^verbatim>\<open>get_rewards\<close> mutates in
  place) and the calls made so far.
\<close>

record 'm world =
  np_rng :: nat
  trainer :: 'm
  generation_kwargs :: gen_kwargs
  batch :: batch_t
  trace :: "event list"

text \<open>
  A raise leaves the world as it was when it happened, so a failed computation returns
  the exception together with that world.
\<close>

type_synonym ('a, 'm) res = "(error \<times> 'm world) + ('a \<times> 'm world)"

definition init_generation_kwargs :: "'m env \<Rightarrow> gen_kwargs" where
  "init_generation_kwargs env =
     \<lparr>min_length = -1, top_k = 0, top_p = 1, do_sample = True,
      pad_token_id = eos_token_id env, max_new_tokens = None\<rparr>"

section \<open>The length sampler\<close>

text \<open>
  Modelled from the spec: \<^verbatim>\<open>LengthSampler\<close> of \<^verbatim>\<open>trl.core\<close> is not among the sources.
  The spec describes it as drawing a random integer from a fixed range, here 4 to 16,
  upper end excluded, with a fresh draw per call.  The sampler is the list of its
  candidate values; a call picks one of them with the global NumPy generator and
  advances the generator (a choice from no candidates raises ValueError).
\<close>

definition LengthSampler :: "nat \<Rightarrow> nat \<Rightarrow> nat list" where
  "LengthSampler min_value max_value = [min_value..<max_value]"

definition sampler_call :: "'m env \<Rightarrow> nat list \<Rightarrow> nat \<Rightarrow> error + (nat \<times> nat)" where
  "sampler_call env values rng =
     (if values = [] then Inl ValueError
      else Inr (values ! (rand_raw env rng mod length values), rand_next env rng))"

definition output_min_length :: nat where
  "output_min_length = 4"

definition output_max_length :: nat where
  "output_max_length = 16"

definition output_length_sampler :: "nat list" where
  "output_length_sampler = LengthSampler output_min_length output_max_length"

section \<open>Generation and scoring: \<^verbatim>\<open>get_rewards\<close>\<close>

text \<open>
  \<^verbatim>\<open>response.squeeze()[-gen_len:]\<close>.  The generated tensor holds one sequence; \<open>squeeze\<close>
  turns a sequence of one token into a zero-dimensional tensor, which cannot be sliced
  (IndexError).  Otherwise the slice keeps the last \<open>gen_len\<close> tokens, all of them when
  there are fewer; \<^verbatim>\<open>[-0:]\<close> is the whole sequence.
\<close>

definition slice_last :: "nat \<Rightarrow> 'a list \<Rightarrow> 'a list" where
  "slice_last n xs = (if n = 0 then xs else drop (length xs - n) xs)"

definition squeeze_slice_last :: "tensor \<Rightarrow> nat \<Rightarrow> error + tensor" where
  "squeeze_slice_last response gen_len =
     (if length response = 1 then Inl IndexError else Inr (slice_last gen_len response))"

text \<open>
  The body of \<^verbatim>\<open>for query in query_tensors\<close>: sample a length, store it in
  \<^verbatim>\<open>generation_kwargs\<close>, generate with the policy trainer, keep the tail of the result.
\<close>

definition gen_one :: "'m env \<Rightarrow> pyval \<Rightarrow> 'm world \<Rightarrow> (tensor, 'm) res" where
  "gen_one env query w =
     (case sampler_call env output_length_sampler (np_rng w) of
        Inl e \<Rightarrow> Inl (e, w)
      | Inr (gen_len, rng') \<Rightarrow>
          (let kw = (generation_kwargs w)\<lparr>max_new_tokens := Some gen_len\<rparr>;
               result = generate env (trainer w) query kw;
               w1 = w\<lparr>np_rng := rng', generation_kwargs := kw,
                       trace := trace w @ [Generate query kw (map_sum id fst result)]\<rparr>
           in case result of
                Inl e \<Rightarrow> Inl (e, w1)
              | Inr (response, m) \<Rightarrow>
                  (let w2 = w1\<lparr>trainer := m\<rparr>
                   in case squeeze_slice_last response gen_len of
                        Inl e \<Rightarrow> Inl (e, w2)
                      | Inr r \<Rightarrow> Inr (r, w2))))"

fun gen_loop :: "'m env \<Rightarrow> pyval list \<Rightarrow> tensor list \<Rightarrow> 'm world \<Rightarrow> (tensor list, 'm) res" where
  "gen_loop env [] response_tensors w = Inr (response_tensors, w)"
| "gen_loop env (query # rest) response_tensors w =
     (case gen_one env query w of
        Inl ew \<Rightarrow> Inl ew
      | Inr (r, w') \<Rightarrow> gen_loop env rest (response_tensors @ [r]) w')"

text \<open>\<^verbatim>\<open>q + r\<close> on a query value and a response text: only two strings concatenate.\<close>

fun py_add :: "pyval \<Rightarrow> pyval \<Rightarrow> error + string" where
  "py_add (Str q) (Str r) = Inr (q @ r)"
| "py_add _ _ = Inl TypeError"

text \<open>
  \<^verbatim>\<open>torch.tensor(output[1]["score"])\<close>: the score of the entry at index 1, stored as a
  tensor.  An output with fewer than two entries raises IndexError.
\<close>

fun reward_of :: "'m env \<Rightarrow> pipe_item list \<Rightarrow> error + score" where
  "reward_of env (_ # item # _) = Inr (torch_tensor env (score_of item))"
| "reward_of env _ = Inl IndexError"

text \<open>
  \<^verbatim>\<open>get_rewards(ref_model=False)\<close>, a closure over \<^verbatim>\<open>query_tensors\<close> and \<^verbatim>\<open>batch\<close>.
\<close>

definition get_rewards ::
  "'m env \<Rightarrow> bool \<Rightarrow> pyval list \<Rightarrow> 'm world \<Rightarrow> (tensor list \<times> score list, 'm) res" where
  "get_rewards env ref_model query_tensors w =
     (case gen_loop env query_tensors [] w of
        Inl ew \<Rightarrow> Inl ew
      | Inr (response_tensors, w1) \<Rightarrow>
     (case try_map (decode env) response_tensors of
        Inl e \<Rightarrow> Inl (e, w1)
      | Inr decoded \<Rightarrow>
     (let w2 = w1\<lparr>batch := setitem (batch w1) ''response'' (map Str decoded)\<rparr>
      in case getitem (batch w2) ''query'' of
        Inl e \<Rightarrow> Inl (e, w2)
      | Inr queries \<Rightarrow>
     (case getitem (batch w2) ''response'' of
        Inl e \<Rightarrow> Inl (e, w2)
      | Inr responses \<Rightarrow>
     (case try_map (\<lambda>(q, r). py_add q r) (zip queries responses) of
        Inl e \<Rightarrow> Inl (e, w2)
      | Inr texts \<Rightarrow>
     (let result = sentiment_pipe env texts sent_kwargs;
          w3 = w2\<lparr>trace := trace w2 @ [SentimentPipe texts sent_kwargs result]\<rparr>
      in case result of
        Inl e \<Rightarrow> Inl (e, w3)
      | Inr pipe_outputs \<Rightarrow>
     (case try_map (reward_of env) pipe_outputs of
        Inl e \<Rightarrow> Inl (e, w3)
      | Inr rewards \<Rightarrow> Inr ((response_tensors, rewards), w3))))))))"

section \<open>The training loop\<close>

text \<open>The body of the \<^verbatim>\<open>for\<close> loop, for one batch the dataloader yielded.\<close>

definition iteration :: "'m env \<Rightarrow> 'm world \<Rightarrow> batch_t \<Rightarrow> (unit, 'm) res" where
  "iteration env w b =
     (let w0 = w\<lparr>batch := b\<rparr>
      in case getitem (batch w0) ''input_ids'' of
        Inl e \<Rightarrow> Inl (e, w0)
      | Inr query_tensors \<Rightarrow>
     (case get_rewards env False query_tensors w0 of
        Inl ew \<Rightarrow> Inl ew
      | Inr ((response_tensors, rewards), w1) \<Rightarrow>
     (case get_rewards env True query_tensors w1 of
        Inl ew \<Rightarrow> Inl ew
      | Inr ((response_tensors_ref, rewards_ref), w2) \<Rightarrow>
     (let result = step env (trainer w2) query_tensors response_tensors response_tensors_ref
                     rewards rewards_ref;
          w3 = w2\<lparr>trace := trace w2 @
                  [Step query_tensors response_tensors response_tensors_ref rewards rewards_ref
                     (map_sum id fst result)]\<rparr>
      in case result of
        Inl e \<Rightarrow> Inl (e, w3)
      | Inr (st, m) \<Rightarrow>
     (let logged = log_stats env m st (batch w3) rewards;
          w4 = w3\<lparr>trainer := m,
                  trace := trace w3 @ [LogStats st (batch w3) rewards (map_sum id (\<lambda>_. ()) logged)]\<rparr>
      in case logged of
        Inl e \<Rightarrow> Inl (e, w4)
      | Inr m' \<Rightarrow> Inr ((), w4\<lparr>trainer := m'\<rparr>))))))"

text \<open>
  \<^verbatim>\<open>for epoch, batch in tqdm(enumerate(ppo_trainer.dataloader))\<close>.  The iterator hands
  over one batch at a time, or raises when it cannot build the next one.
\<close>

fun run_loop :: "'m env \<Rightarrow> 'm world \<Rightarrow> (error + batch_t) list \<Rightarrow> (unit, 'm) res" where
  "run_loop env w [] = Inr ((), w)"
| "run_loop env w (Inl e # rest) = Inl (e, w)"
| "run_loop env w (Inr b # rest) =
     (case iteration env w b of
        Inl ew \<Rightarrow> Inl ew
      | Inr (_, w') \<Rightarrow> run_loop env w' rest)"




definition init_world :: "'m env \<Rightarrow> nat \<Rightarrow> 'm \<Rightarrow> 'm world" where
  "init_world env seed m =
     \<lparr>np_rng = seed, trainer = m, generation_kwargs = init_generation_kwargs env,
      batch = [], trace = []\<rparr>"

section \<open>Observations on the calls made\<close>

text \<open>
  What a recorded call raised, if it raised.
\<close>

fun event_error :: "event \<Rightarrow> error option" where
  "event_error (Generate _ _ r) = (case r of Inl e \<Rightarrow> Some e | Inr _ \<Rightarrow> None)"
| "event_error (SentimentPipe _ _ r) = (case r of Inl e \<Rightarrow> Some e | Inr _ \<Rightarrow> None)"
| "event_error (Step _ _ _ _ _ r) = (case r of Inl e \<Rightarrow> Some e | Inr _ \<Rightarrow> None)"
| "event_error (LogStats _ _ _ r) = (case r of Inl e \<Rightarrow> Some e | Inr _ \<Rightarrow> None)"

text \<open>
  The world a computation ends in, whether it returned or raised.
\<close>

definition final_world :: "('a, 'm) res \<Rightarrow> 'm world" where
  "final_world r = (case r of Inl (e, w) \<Rightarrow> w | Inr (x, w) \<Rightarrow> w)"

text \<open>
  A run of calls none of which raised, and the shape of the calls a computation adds
  to the record: when it returns, none of them raised; when it raises \<open>e\<close>, only the last
  of them can have raised, and then it raised \<open>e\<close>.
\<close>

definition clean :: "event list \<Rightarrow> bool" where
  "clean evs = list_all (\<lambda>ev. event_error ev = None) evs"

definition outcome_ok :: "event list \<Rightarrow> ('a, 'm) res \<Rightarrow> bool" where
  "outcome_ok tr0 r =
     (case r of
        Inr (x, w') \<Rightarrow> (\<exists>evs. trace w' = tr0 @ evs \<and> clean evs)
      | Inl (e, w') \<Rightarrow> (\<exists>evs. trace w' = tr0 @ evs \<and> clean (butlast evs) \<and>
                          (evs = [] \<or> event_error (last evs) = None \<or> event_error (last evs) = Some e)))"




text \<open>
  What one pass of the generation loop leaves behind for a query \<open>q\<close> when the NumPy
  generator is in state \<open>rng\<close>: the sampled length, the recorded call and the kept tail.
\<close>

definition gen_item :: "'m env \<Rightarrow> gen_kwargs \<Rightarrow> nat \<Rightarrow> pyval \<Rightarrow> event \<Rightarrow> tensor \<Rightarrow> bool" where
  "gen_item env kw0 rng q ev r \<longleftrightarrow>
     (\<exists>L out m m'.
        sampler_call env output_length_sampler rng = Inr (L, rand_next env rng) \<and>
        4 \<le> L \<and> L < 16 \<and>
        generate env m q (kw0\<lparr>max_new_tokens := Some L\<rparr>) = Inr (out, m') \<and>
        ev = Generate q (kw0\<lparr>max_new_tokens := Some L\<rparr>) (Inr out) \<and>
        length out \<noteq> 1 \<and> r = slice_last L out \<and> length r = min L (length out))"

section \<open>The selection the spec describes\<close>

text \<open>
  The spec has the reward selected from the classifier output by matching the label of
  the positive class.  This is that selection, kept apart from \<open>reward_of\<close>, which is what
  the script does.
\<close>

definition positive_label :: string where
  "positive_label = ''POSITIVE''"

definition score_by_label :: "string \<Rightarrow> pipe_item list \<Rightarrow> score option" where
  "score_by_label l output = map_option score_of (find (\<lambda>item. label item = l) output)"

section \<open>Concrete collaborators\<close>

text \<open>
  A small world to run the loop in: generation appends six tokens to the prompt,
  decoding writes one letter per token, the classifier lists the negative class first
  and scores the positive class by the length of the text, the update never fails.
\<close>

definition demo_classify :: "string \<Rightarrow> pipe_item list" where
  "demo_classify text =
     [\<lparr>label = ''NEGATIVE'', score_of = - 1\<rparr>, \<lparr>label = ''POSITIVE'', score_of = real (length text)\<rparr>]"

definition demo_env :: "nat env" where
  "demo_env =
     \<lparr>eos_token_id = 50256,
      rand_raw = (\<lambda>s. s),
      rand_next = Suc,
      generate = (\<lambda>m q kw. case q of
                     Tensor t \<Rightarrow> Inr (t @ [1, 2, 3, 4, 5, 6], Suc m)
                   | _ \<Rightarrow> Inl TypeError),
      decode = (\<lambda>t. Inr (map (\<lambda>_. CHR ''x'') t)),
      sentiment_pipe = (\<lambda>texts kw. Inr (map demo_classify texts)),
      torch_tensor = (\<lambda>x. x),
      step = (\<lambda>m q r rr rw rrw. Inr ([(''ppo/loss'', 0)], Suc m)),
      log_stats = (\<lambda>m st b rw. Inr m)\<rparr>"

definition demo_record :: "pyval dict" where
  "demo_record =
     [(''review'', Str ''good film''), (''input_ids'', Tensor [10, 11]), (''query'', Str ''ab'')]"

definition demo_record2 :: "pyval dict" where
  "demo_record2 =
     [(''query'', Str ''cd''), (''review'', Str ''bad film''), (''input_ids'', Tensor [12, 13, 14])]"

definition demo_batch :: batch_t where
  "demo_batch =
     [(''review'', [Str ''good film'']), (''input_ids'', [Tensor [10, 11]]), (''query'', [Str ''ab''])]"

definition demo_batch_two :: batch_t where
  "demo_batch_two =
     [(''input_ids'', [Tensor [10, 11], Tensor [12, 13, 14]]),
      (''query'', [Str ''ab'', Str ''cde''])]"

definition demo_world :: "nat world" where
  "demo_world = init_world demo_env 0 0"

definition demo_world1 :: "nat world" where
  "demo_world1 =
     \<lparr>np_rng = 1, trainer = 1,
      generation_kwargs = (init_generation_kwargs demo_env)\<lparr>max_new_tokens := Some 4\<rparr>,
      batch = demo_batch @ [(''response'', [Str ''xxxx''])],
      trace =
        [Generate (Tensor [10, 11]) ((init_generation_kwargs demo_env)\<lparr>max_new_tokens := Some 4\<rparr>)
           (Inr [10, 11, 1, 2, 3, 4, 5, 6]),
         SentimentPipe [''abxxxx''] sent_kwargs (Inr [demo_classify ''abxxxx''])]\<rparr>"


text \<open>
  The same classifier with its output ranked, the class with the highest score first.
\<close>

definition rank_by_score :: "pipe_item list \<Rightarrow> pipe_item list" where
  "rank_by_score output = rev (sort_key score_of output)"

definition ranked_classify :: "string \<Rightarrow> pipe_item list" where
  "ranked_classify text = rank_by_score (demo_classify text)"

definition ranked_env :: "nat env" where
  "ranked_env = demo_env\<lparr>sentiment_pipe := (\<lambda>texts kw. Inr (map ranked_classify texts))\<rparr>"

text \<open>
  An update step that raises once the trainer has been at work for a while.
\<close>

definition failing_env :: "nat env" where
  "failing_env =
     demo_env\<lparr>step := (\<lambda>m q r rr rw rrw.
                          if 5 \<le> m then Inl (ExternalError 7)
                          else Inr ([(''ppo/loss'', 0)], Suc m))\<rparr>"


definition demo_world_two :: "nat world" where
  "demo_world_two =
     final_world (get_rewards demo_env False [Tensor [10, 11], Tensor [12, 13, 14]]
                    (demo_world\<lparr>batch := demo_batch_two\<rparr>))"

definition failing_world1 :: "nat world" where
  "failing_world1 = final_world (run_loop failing_env demo_world [Inr demo_batch])"

definition failing_world2 :: "nat world" where
  "failing_world2 = final_world (iteration failing_env failing_world1 demo_batch)"

section \<open>Basic facts\<close>

subsection \<open>Comprehensions and dictionaries\<close>

lemma try_map_Inr_iff:
  "try_map f xs = Inr ys \<longleftrightarrow> list_all2 (\<lambda>x y. f x = Inr y) xs ys"
proof (induction xs arbitrary: ys)
  case Nil
  then show ?case by auto
next
  case (Cons a xs)
  show ?case
  proof (cases "f a")
    case (Inl e)
    then show ?thesis by (auto simp: list_all2_Cons1)
  next
    case (Inr y)
    show ?thesis
    proof (cases "try_map f xs")
      case (Inl e)
      with Inr Cons.IH[of "tl ys"] Cons.IH show ?thesis
        by (auto simp: list_all2_Cons1)
    next
      case r: (Inr zs)
      with Inr Cons.IH[of zs] Cons.IH show ?thesis
        by (auto simp: list_all2_Cons1)
    qed
  qed
qed

lemma try_map_length: "try_map f xs = Inr ys \<Longrightarrow> length ys = length xs"
  by (simp add: try_map_Inr_iff list_all2_lengthD)

lemma try_map_nth: "try_map f xs = Inr ys \<Longrightarrow> i < length xs \<Longrightarrow> f (xs ! i) = Inr (ys ! i)"
  by (auto simp: try_map_Inr_iff dest: list_all2_nthD)

lemma try_map_total: "(\<And>x. x \<in> set xs \<Longrightarrow> f x = Inr (g x)) \<Longrightarrow> try_map f xs = Inr (map g xs)"
  by (induction xs) auto


lemma getitem_setitem:
  "getitem (setitem d k v) k' = (if k' = k then Inr v else getitem d k')"
  by (simp add: getitem_def setitem_def update_conv')

lemma map_of_foldl_setitem:
  "map_of (foldl (\<lambda>d (k, v). setitem d k v) d0 ps) key =
     (case map_of (rev ps) key of None \<Rightarrow> map_of d0 key | Some v \<Rightarrow> Some v)"
  by (induction ps arbitrary: d0)
     (auto simp: setitem_def update_conv' map_add_def split: option.splits)

lemma map_of_dict_of_pairs_fun:
  "map_of (dict_of_pairs (map (\<lambda>k. (k, g k)) ks)) key = (if key \<in> set ks then Some (g key) else None)"
proof -
  have "map_of (rev (map (\<lambda>k. (k, g k)) ks)) key = (if key \<in> set ks then Some (g key) else None)"
    by (induction ks) (auto simp: map_add_def split: option.splits)
  then show ?thesis by (simp add: dict_of_pairs_def map_of_foldl_setitem)
qed

lemma dict_keys_foldl_setitem:
  "set (dict_keys (foldl (\<lambda>d (k, v). setitem d k v) d0 ps)) = set (dict_keys d0) \<union> fst ` set ps"
proof (induction ps arbitrary: d0)
  case Nil
  then show ?case by simp
next
  case (Cons p ps)
  obtain k v where p: "p = (k, v)" by (cases p)
  have "set (dict_keys (setitem d0 k v)) = insert k (set (dict_keys d0))"
    using dom_update[of k v d0] by (simp add: setitem_def dict_keys_def)
  then show ?case using Cons.IH[of "setitem d0 k v"] by (auto simp: p)
qed

subsection \<open>The collator\<close>

lemma collator_total:
  assumes "data \<noteq> []"
    and "\<And>d k. d \<in> set data \<Longrightarrow> k \<in> set (dict_keys (hd data)) \<Longrightarrow> map_of d k \<noteq> None"
  shows "collator data =
           Inr (dict_of_pairs (map (\<lambda>k. (k, map (\<lambda>d. the (map_of d k)) data)) (dict_keys (hd data))))"
proof -
  obtain d0 ds where data: "data = d0 # ds" using assms(1) by (cases data) auto
  have col: "try_map (\<lambda>d. getitem d k) data = Inr (map (\<lambda>d. the (map_of d k)) data)"
    if "k \<in> set (dict_keys (hd data))" for k
    by (rule try_map_total) (use assms(2) that in \<open>auto simp: getitem_def split: option.splits\<close>)
  have "try_map (\<lambda>key. case try_map (\<lambda>d. getitem d key) data of
                            Inl e \<Rightarrow> Inl e | Inr col \<Rightarrow> Inr (key, col)) (dict_keys (hd data))
        = Inr (map (\<lambda>k. (k, map (\<lambda>d. the (map_of d k)) data)) (dict_keys (hd data)))"
    by (rule try_map_total) (simp add: col)
  then show ?thesis by (simp add: collator_def data)
qed

lemma collator_column_length:
  assumes "collator data = Inr b" and "getitem b k = Inr col"
  shows "length col = length data"
proof -
  from assms(1) obtain d0 ds ps where data: "data = d0 # ds" and
    ps: "try_map (\<lambda>key. case try_map (\<lambda>d. getitem d key) data of
                            Inl e \<Rightarrow> Inl e | Inr col \<Rightarrow> Inr (key, col)) (dict_keys d0) = Inr ps"
    and b: "b = dict_of_pairs ps"
    by (auto simp: collator_def split: list.splits sum.splits)
  have each: "length c = length data" if "(key, c) \<in> set ps" for key c
  proof -
    from that obtain i where i: "i < length ps" "ps ! i = (key, c)" by (auto simp: in_set_conv_nth)
    then have i': "i < length (dict_keys d0)" using try_map_length[OF ps] by simp
    from try_map_nth[OF ps i'] i(2) show ?thesis
      by (auto split: sum.splits dest: try_map_length)
  qed
  from assms(2) b have "map_of (foldl (\<lambda>d (k, v). setitem d k v) [] ps) k = Some col"
    by (auto simp: getitem_def dict_of_pairs_def split: option.splits)
  then have "map_of (rev ps) k = Some col"
    by (simp add: map_of_foldl_setitem split: option.splits)
  then have "(k, col) \<in> set ps" by (auto dest: map_of_SomeD)
  then show ?thesis by (rule each)
qed



subsection \<open>The sampler and one generation\<close>

lemma sampler_call_range:
  assumes "sampler_call env output_length_sampler rng = Inr (L, rng')"
  shows "4 \<le> L \<and> L < 16 \<and> rng' = rand_next env rng"
proof -
  have len: "length output_length_sampler = 12"
    by (simp add: output_length_sampler_def LengthSampler_def output_min_length_def
        output_max_length_def)
  have k: "rand_raw env rng mod 12 < 12" by simp
  have "output_length_sampler ! (rand_raw env rng mod 12) = 4 + rand_raw env rng mod 12"
    unfolding output_length_sampler_def LengthSampler_def output_min_length_def
      output_max_length_def
    using k by (subst nth_upt) auto
  with assms len k show ?thesis
    by (auto simp: sampler_call_def split: if_splits)
qed

lemma sampler_call_total:
  "\<exists>L. sampler_call env output_length_sampler rng = Inr (L, rand_next env rng)"
  by (simp add: sampler_call_def output_length_sampler_def LengthSampler_def
      output_min_length_def output_max_length_def)

lemma length_slice_last: "0 < n \<Longrightarrow> length (slice_last n xs) = min n (length xs)"
  by (auto simp: slice_last_def)

lemma gen_one_Inr_D:
  assumes "gen_one env q w = Inr (r, w')"
  shows "\<exists>L out m.
           sampler_call env output_length_sampler (np_rng w) = Inr (L, rand_next env (np_rng w)) \<and>
           generate env (trainer w) q ((generation_kwargs w)\<lparr>max_new_tokens := Some L\<rparr>) = Inr (out, m) \<and>
           length out \<noteq> 1 \<and> r = slice_last L out \<and>
           w' = w\<lparr>np_rng := rand_next env (np_rng w),
                  generation_kwargs := (generation_kwargs w)\<lparr>max_new_tokens := Some L\<rparr>,
                  trace := trace w @ [Generate q ((generation_kwargs w)\<lparr>max_new_tokens := Some L\<rparr>) (Inr out)],
                  trainer := m\<rparr>"
proof -
  obtain L where s: "sampler_call env output_length_sampler (np_rng w) = Inr (L, rand_next env (np_rng w))"
    using sampler_call_total by blast
  show ?thesis
    using assms unfolding gen_one_def s
    by (auto simp: Let_def squeeze_slice_last_def split: sum.splits if_splits)
qed

lemma gen_item_kw:
  "gen_item env (kw0\<lparr>max_new_tokens := x\<rparr>) rng q ev r = gen_item env kw0 rng q ev r"
  by (simp add: gen_item_def)

lemma gen_one_item:
  assumes "gen_one env q w = Inr (r, w')"
  shows "\<exists>ev. gen_item env (generation_kwargs w) (np_rng w) q ev r \<and>
           trace w' = trace w @ [ev] \<and> batch w' = batch w \<and>
           np_rng w' = rand_next env (np_rng w) \<and>
           (\<exists>x. generation_kwargs w' = (generation_kwargs w)\<lparr>max_new_tokens := x\<rparr>)"
proof -
  from gen_one_Inr_D[OF assms] obtain L out m where
    s: "sampler_call env output_length_sampler (np_rng w) = Inr (L, rand_next env (np_rng w))"
    and g: "generate env (trainer w) q ((generation_kwargs w)\<lparr>max_new_tokens := Some L\<rparr>) = Inr (out, m)"
    and o: "length out \<noteq> 1" and r: "r = slice_last L out"
    and w': "w' = w\<lparr>np_rng := rand_next env (np_rng w),
                  generation_kwargs := (generation_kwargs w)\<lparr>max_new_tokens := Some L\<rparr>,
                  trace := trace w @ [Generate q ((generation_kwargs w)\<lparr>max_new_tokens := Some L\<rparr>) (Inr out)],
                  trainer := m\<rparr>"
    by blast
  from sampler_call_range[OF s] have L: "4 \<le> L" "L < 16" by auto
  then have len: "length r = min L (length out)"
    using r by (simp add: length_slice_last)
  have "gen_item env (generation_kwargs w) (np_rng w) q
          (Generate q ((generation_kwargs w)\<lparr>max_new_tokens := Some L\<rparr>) (Inr out)) r"
    unfolding gen_item_def using s g o r L len by blast
  then show ?thesis using w' by auto
qed

lemma gen_loop_items:
  assumes "gen_loop env qs acc w = Inr (rs, w')"
  shows "\<exists>evs rs'. rs = acc @ rs' \<and> length rs' = length qs \<and>
           trace w' = trace w @ evs \<and> length evs = length qs \<and>
           batch w' = batch w \<and>
           np_rng w' = (rand_next env ^^ length qs) (np_rng w) \<and>
           (\<exists>x. generation_kwargs w' = (generation_kwargs w)\<lparr>max_new_tokens := x\<rparr>) \<and>
           (\<forall>i < length qs. gen_item env (generation_kwargs w)
                                ((rand_next env ^^ i) (np_rng w)) (qs ! i) (evs ! i) (rs' ! i))"
  using assms
proof (induction qs arbitrary: acc w)
  case Nil
  then show ?case
    by (auto intro: exI[of _ "max_new_tokens (generation_kwargs w)"])
next
  case (Cons q qs)
  from Cons.prems obtain r w1 where
    one: "gen_one env q w = Inr (r, w1)" and
    rest: "gen_loop env qs (acc @ [r]) w1 = Inr (rs, w')"
    by (auto split: sum.splits)
  from gen_one_item[OF one] obtain ev x where
    ev: "gen_item env (generation_kwargs w) (np_rng w) q ev r" and
    tr1: "trace w1 = trace w @ [ev]" and b1: "batch w1 = batch w" and
    rng1: "np_rng w1 = rand_next env (np_rng w)" and
    kw1: "generation_kwargs w1 = (generation_kwargs w)\<lparr>max_new_tokens := x\<rparr>"
    by blast
  from Cons.IH[OF rest] obtain evs rs' y where
    rs: "rs = (acc @ [r]) @ rs'" and lrs: "length rs' = length qs" and
    tr: "trace w' = trace w1 @ evs" and levs: "length evs = length qs" and
    b: "batch w' = batch w1" and
    rng: "np_rng w' = (rand_next env ^^ length qs) (np_rng w1)" and
    kw: "generation_kwargs w' = (generation_kwargs w1)\<lparr>max_new_tokens := y\<rparr>" and
    items: "\<forall>i < length qs. gen_item env (generation_kwargs w1)
                                ((rand_next env ^^ i) (np_rng w1)) (qs ! i) (evs ! i) (rs' ! i)"
    by blast
  have items': "gen_item env (generation_kwargs w) ((rand_next env ^^ i) (np_rng w))
                  ((q # qs) ! i) ((ev # evs) ! i) ((r # rs') ! i)"
    if "i < length (q # qs)" for i
  proof (cases i)
    case 0
    then show ?thesis using ev by simp
  next
    case (Suc j)
    with that have "j < length qs" by simp
    with items have "gen_item env (generation_kwargs w1)
                                ((rand_next env ^^ j) (np_rng w1)) (qs ! j) (evs ! j) (rs' ! j)"
      by blast
    then show ?thesis
      by (simp add: Suc kw1 gen_item_kw rng1 funpow_swap1)
  qed
  have "rs = acc @ (r # rs')" using rs by simp
  moreover have "length (r # rs') = length (q # qs)" using lrs by simp
  moreover have "trace w' = trace w @ (ev # evs)" using tr tr1 by simp
  moreover have "length (ev # evs) = length (q # qs)" using levs by simp
  moreover have "batch w' = batch w" using b b1 by simp
  moreover have "np_rng w' = (rand_next env ^^ length (q # qs)) (np_rng w)"
    using rng rng1 by (simp add: funpow_swap1)
  moreover have "generation_kwargs w' = (generation_kwargs w)\<lparr>max_new_tokens := y\<rparr>"
    using kw kw1 by simp
  ultimately show ?case using items' by blast
qed



subsection \<open>One pass of \<^verbatim>\<open>get_rewards\<close> and one iteration\<close>

lemma get_rewards_Inr_D:
  assumes "get_rewards env rm qts w = Inr ((rts, rews), w')"
  shows "\<exists>w1 decoded queries texts outs.
           gen_loop env qts [] w = Inr (rts, w1) \<and>
           try_map (decode env) rts = Inr decoded \<and>
           getitem (batch w1) ''query'' = Inr queries \<and>
           try_map (\<lambda>(q, r). py_add q r) (zip queries (map Str decoded)) = Inr texts \<and>
           sentiment_pipe env texts sent_kwargs = Inr outs \<and>
           try_map (reward_of env) outs = Inr rews \<and>
           w' = w1\<lparr>batch := setitem (batch w1) ''response'' (map Str decoded),
                   trace := trace w1 @ [SentimentPipe texts sent_kwargs (Inr outs)]\<rparr>"
  using assms unfolding get_rewards_def
  by (auto simp: Let_def getitem_setitem split: sum.splits prod.splits)



lemma py_add_Str_D: "py_add q (Str r) = Inr t \<Longrightarrow> \<exists>s. q = Str s \<and> t = s @ r"
  by (cases q) auto

lemma get_rewards_scoring:
  assumes "get_rewards env rm qts w = Inr ((rts, rews), w')"
  shows "\<exists>decoded queries texts outs.
           length rts = length qts \<and>
           try_map (decode env) rts = Inr decoded \<and>
           getitem (batch w) ''query'' = Inr queries \<and>
           getitem (batch w') ''query'' = Inr queries \<and>
           getitem (batch w') ''response'' = Inr (map Str decoded) \<and>
           length texts = min (length queries) (length rts) \<and>
           (\<forall>i < length texts. \<exists>q. queries ! i = Str q \<and> texts ! i = q @ decoded ! i) \<and>
           sentiment_pipe env texts sent_kwargs = Inr outs \<and>
           try_map (reward_of env) outs = Inr rews"
proof -
  from get_rewards_Inr_D[OF assms] obtain w1 decoded queries texts outs where
    g: "gen_loop env qts [] w = Inr (rts, w1)" and
    d: "try_map (decode env) rts = Inr decoded" and
    q: "getitem (batch w1) ''query'' = Inr queries" and
    t: "try_map (\<lambda>(q, r). py_add q r) (zip queries (map Str decoded)) = Inr texts" and
    p: "sentiment_pipe env texts sent_kwargs = Inr outs" and
    r: "try_map (reward_of env) outs = Inr rews" and
    w': "w' = w1\<lparr>batch := setitem (batch w1) ''response'' (map Str decoded),
                   trace := trace w1 @ [SentimentPipe texts sent_kwargs (Inr outs)]\<rparr>"
    by blast
  from gen_loop_items[OF g] have b: "batch w1 = batch w" and l: "length rts = length qts" by auto
  have ld: "length decoded = length rts" using try_map_length[OF d] .
  have lt: "length texts = min (length queries) (length rts)"
    using try_map_length[OF t] ld by simp
  have items: "\<exists>s. queries ! i = Str s \<and> texts ! i = s @ decoded ! i" if "i < length texts" for i
  proof -
    have i: "i < length (zip queries (map Str decoded))" using that try_map_length[OF t] by simp
    from try_map_nth[OF t i] have "py_add (queries ! i) (Str (decoded ! i)) = Inr (texts ! i)"
      using i by simp
    then show ?thesis by (rule py_add_Str_D)
  qed
  have q': "getitem (batch w') ''query'' = Inr queries"
    using w' q by (simp add: getitem_setitem)
  have r': "getitem (batch w') ''response'' = Inr (map Str decoded)"
    using w' by (simp add: getitem_setitem)
  from l d q b q' r' lt items p r show ?thesis by (metis (no_types, lifting))
qed

lemma pass_lengths:
  assumes "getitem (batch w) ''query'' = Inr queries" and "length queries = length qts"
    and "\<forall>texts outs. sentiment_pipe env texts sent_kwargs = Inr outs \<longrightarrow> length outs = length texts"
    and "get_rewards env rm qts w = Inr ((rts, rews), w')"
  shows "length rts = length qts \<and> length rews = length qts \<and>
         getitem (batch w') ''query'' = Inr queries"
proof -
  from get_rewards_scoring[OF assms(4)] obtain decoded queries' texts outs where
    l: "length rts = length qts" and
    q: "getitem (batch w) ''query'' = Inr queries'" and
    q': "getitem (batch w') ''query'' = Inr queries'" and
    lt: "length texts = min (length queries') (length rts)" and
    p: "sentiment_pipe env texts sent_kwargs = Inr outs" and
    r: "try_map (reward_of env) outs = Inr rews"
    by blast
  have "queries' = queries" using q assms(1) by simp
  moreover have "length outs = length texts" using p assms(3) by blast
  moreover have "length rews = length outs" using try_map_length[OF r] .
  ultimately show ?thesis using l lt q' assms(2) by simp
qed

lemma reward_of_Inr_D:
  assumes "reward_of env out = Inr r"
  shows "2 \<le> length out \<and> r = torch_tensor env (score_of (out ! 1))"
proof (cases out)
  case Nil
  with assms show ?thesis by simp
next
  case (Cons a rest)
  with assms show ?thesis by (cases rest) auto
qed


lemma get_rewards_reads_index_one:
  assumes "get_rewards env ref_model qts w = Inr ((rts, rews), w')"
  shows "\<exists>texts outs.
           last (trace w') = SentimentPipe texts sent_kwargs (Inr outs) \<and>
           sentiment_pipe env texts sent_kwargs = Inr outs \<and>
           length rews = length outs \<and>
           (\<forall>i < length outs.
               2 \<le> length (outs ! i) \<and> rews ! i = torch_tensor env (score_of (outs ! i ! 1)))"
proof -
  from get_rewards_Inr_D[OF assms] obtain w1 decoded texts outs where
    p: "sentiment_pipe env texts sent_kwargs = Inr outs" and
    r: "try_map (reward_of env) outs = Inr rews" and
    w': "w' = w1\<lparr>batch := setitem (batch w1) ''response'' (map Str decoded),
                   trace := trace w1 @ [SentimentPipe texts sent_kwargs (Inr outs)]\<rparr>"
    by blast
  have l: "last (trace w') = SentimentPipe texts sent_kwargs (Inr outs)" using w' by simp
  have lr: "length rews = length outs" using try_map_length[OF r] .
  have each: "2 \<le> length (outs ! i) \<and> rews ! i = torch_tensor env (score_of (outs ! i ! 1))"
    if "i < length outs" for i
  proof -
    from try_map_nth[OF r that] have "reward_of env (outs ! i) = Inr (rews ! i)" .
    from reward_of_Inr_D[OF this] show ?thesis .
  qed
  from l p lr each show ?thesis by blast
qed

lemma ranked_reward_is_losing_score:
  assumes "label p = positive_label" and "label n \<noteq> positive_label"
  shows "reward_of env [p, n] = Inr (torch_tensor env (score_of n)) \<and>
         score_by_label positive_label [p, n] = Some (score_of p)"
  using assms by (simp add: score_by_label_def)

subsection \<open>Calls that raise\<close>

lemma clean_simps [simp]:
  "clean []" "clean (ev # evs) = (event_error ev = None \<and> clean evs)"
  "clean (xs @ ys) = (clean xs \<and> clean ys)"
  by (simp_all add: clean_def)

lemma clean_butlast: "clean evs \<Longrightarrow> clean (butlast evs)"
  by (induction evs) auto

lemma clean_last: "clean evs \<Longrightarrow> evs \<noteq> [] \<Longrightarrow> event_error (last evs) = None"
  by (induction evs) auto

lemma outcome_ok_InlI:
  "trace w' = tr0 @ evs \<Longrightarrow> clean (butlast evs) \<Longrightarrow>
   evs = [] \<or> event_error (last evs) = None \<or> event_error (last evs) = Some e \<Longrightarrow>
   outcome_ok tr0 (Inl (e, w'))"
  by (auto simp: outcome_ok_def)

lemma outcome_ok_InrI:
  "trace w' = tr0 @ evs \<Longrightarrow> clean evs \<Longrightarrow> outcome_ok tr0 (Inr (x, w'))"
  by (auto simp: outcome_ok_def)

lemma outcome_ok_bind:
  assumes "outcome_ok tr0 (Inr (x, w1))" and "outcome_ok (trace w1) r"
  shows "outcome_ok tr0 r"
proof -
  from assms(1) obtain evs1 where t1: "trace w1 = tr0 @ evs1" and c1: "clean evs1"
    by (auto simp: outcome_ok_def)
  show ?thesis
  proof (cases r)
    case (Inr p)
    then obtain y w' where r: "r = Inr (y, w')" by (cases p) auto
    with assms(2) obtain evs2 where "trace w' = trace w1 @ evs2" "clean evs2"
      by (auto simp: outcome_ok_def)
    then have "outcome_ok tr0 (Inr (y, w'))"
      using t1 c1 by (intro outcome_ok_InrI[of _ _ "evs1 @ evs2"]) auto
    then show ?thesis using r by simp
  next
    case (Inl p)
    then obtain e w' where r: "r = Inl (e, w')" by (cases p) auto
    with assms(2) obtain evs2 where t2: "trace w' = trace w1 @ evs2" and c2: "clean (butlast evs2)"
      and l2: "evs2 = [] \<or> event_error (last evs2) = None \<or> event_error (last evs2) = Some e"
      by (auto simp: outcome_ok_def)
    have "outcome_ok tr0 (Inl (e, w'))"
    proof (rule outcome_ok_InlI[of _ _ "evs1 @ evs2"])
      show "trace w' = tr0 @ evs1 @ evs2" using t1 t2 by simp
      show "clean (butlast (evs1 @ evs2))"
        using c1 c2 by (cases "evs2 = []") (auto simp: butlast_append clean_butlast)
      show "evs1 @ evs2 = [] \<or> event_error (last (evs1 @ evs2)) = None \<or>
            event_error (last (evs1 @ evs2)) = Some e"
        using l2 c1 by (cases "evs2 = []") (auto simp: clean_last)
    qed
    then show ?thesis using r by simp
  qed
qed

lemma outcome_ok_Inl_retype:
  "outcome_ok tr (Inl ew :: ('a, 'm) res) \<Longrightarrow> outcome_ok tr (Inl ew :: ('b, 'm) res)"
  by (simp add: outcome_ok_def)

lemma outcome_ok_same_Inl: "outcome_ok (trace w) (Inl (e, w))"
  by (rule outcome_ok_InlI[of _ _ "[]"]) auto

lemma outcome_ok_same_Inr: "outcome_ok (trace w) (Inr (x, w))"
  by (rule outcome_ok_InrI[of _ _ "[]"]) auto

lemma gen_one_outcome: "outcome_ok (trace w) (gen_one env q w)"
proof -
  obtain L where s: "sampler_call env output_length_sampler (np_rng w) = Inr (L, rand_next env (np_rng w))"
    using sampler_call_total by blast
  show ?thesis
    unfolding gen_one_def s
    by (auto simp: Let_def outcome_ok_def split: sum.splits prod.splits)
qed

lemma gen_loop_outcome: "outcome_ok (trace w) (gen_loop env qs acc w)"
proof (induction qs arbitrary: acc w)
  case Nil
  show ?case by (simp add: outcome_ok_same_Inr)
next
  case (Cons q qs)
  show ?case
  proof (cases "gen_one env q w")
    case (Inl ew)
    then show ?thesis using gen_one_outcome[of w env q] by (auto intro: outcome_ok_Inl_retype)
  next
    case (Inr p)
    then obtain r w1 where one: "gen_one env q w = Inr (r, w1)" by (cases p) auto
    have "outcome_ok (trace w) (Inr (r, w1))" using gen_one_outcome[of w env q] one by simp
    from outcome_ok_bind[OF this Cons.IH[of w1 "acc @ [r]"]] show ?thesis
      by (simp add: one)
  qed
qed

lemma get_rewards_outcome: "outcome_ok (trace w) (get_rewards env rm qts w)"
proof (cases "gen_loop env qts [] w")
  case (Inl ew)
  then show ?thesis
    using gen_loop_outcome[of w env qts "[]"]
    by (auto simp: get_rewards_def intro: outcome_ok_Inl_retype)
next
  case (Inr p)
  then obtain rts w1 where g: "gen_loop env qts [] w = Inr (rts, w1)" by (cases p) auto
  have 1: "outcome_ok (trace w) (Inr (rts, w1))" using gen_loop_outcome[of w env qts "[]"] g by simp
  have 2: "outcome_ok (trace w1) (get_rewards env rm qts w)"
    unfolding get_rewards_def g
    by (auto simp: Let_def outcome_ok_def split: sum.splits prod.splits)
  from outcome_ok_bind[OF 1 2] show ?thesis .
qed

lemma iteration_outcome: "outcome_ok (trace w) (iteration env w b)"
proof (cases "getitem b ''input_ids''")
  case (Inl e)
  then show ?thesis by (simp add: iteration_def outcome_ok_def)
next
  case (Inr qts)
  let ?w0 = "w\<lparr>batch := b\<rparr>"
  have p1: "outcome_ok (trace w) (get_rewards env False qts ?w0)"
    using get_rewards_outcome[of ?w0 env False qts] by simp
  show ?thesis
  proof (cases "get_rewards env False qts ?w0")
    case (Inl ew)
    then show ?thesis using p1 Inr
      by (auto simp: iteration_def intro: outcome_ok_Inl_retype)
  next
    case r1: (Inr p)
    then obtain rts rews w1 where g1: "get_rewards env False qts ?w0 = Inr ((rts, rews), w1)"
      by (cases p) auto
    have o1: "outcome_ok (trace w) (Inr ((rts, rews), w1))" using p1 g1 by simp
    have p2: "outcome_ok (trace w1) (get_rewards env True qts w1)"
      by (rule get_rewards_outcome)
    show ?thesis
    proof (cases "get_rewards env True qts w1")
      case (Inl ew)
      then have "iteration env w b = Inl ew" using Inr g1 by (simp add: iteration_def)
      moreover have "outcome_ok (trace w) (Inl ew :: (tensor list \<times> score list, 'a) res)"
        using outcome_ok_bind[OF o1 p2] Inl by simp
      ultimately show ?thesis by (auto intro: outcome_ok_Inl_retype)
    next
      case r2: (Inr p')
      then obtain rrts rrews w2 where g2: "get_rewards env True qts w1 = Inr ((rrts, rrews), w2)"
        by (cases p') auto
      have o2: "outcome_ok (trace w) (Inr ((rrts, rrews), w2))"
        using outcome_ok_bind[OF o1 p2] g2 by simp
      have 3: "outcome_ok (trace w2) (iteration env w b)"
        using Inr g1 g2 unfolding iteration_def
        by (auto simp: Let_def outcome_ok_def split: sum.splits prod.splits)
      from outcome_ok_bind[OF o2 3] show ?thesis .
    qed
  qed
qed

lemma run_loop_outcome: "outcome_ok (trace w) (run_loop env w batches)"
proof (induction batches arbitrary: w)
  case Nil
  show ?case by (simp add: outcome_ok_same_Inr)
next
  case (Cons x batches)
  show ?case
  proof (cases x)
    case (Inl e)
    then show ?thesis by (simp add: outcome_ok_same_Inl)
  next
    case (Inr b)
    show ?thesis
    proof (cases "iteration env w b")
      case i: (Inl ew)
      then show ?thesis using iteration_outcome[of w env b] Inr by simp
    next
      case i: (Inr p)
      then obtain w1 where it: "iteration env w b = Inr ((), w1)" by (cases p) auto
      have "outcome_ok (trace w) (Inr ((), w1))" using iteration_outcome[of w env b] it by simp
      from outcome_ok_bind[OF this Cons.IH[of w1]] show ?thesis
        by (simp add: Inr it)
    qed
  qed
qed

lemma run_loop_append:
  assumes "run_loop env w pre = Inr ((), w1)"
  shows "run_loop env w (pre @ rest) = run_loop env w1 rest"
  using assms
proof (induction pre arbitrary: w)
  case Nil
  then show ?case by simp
next
  case (Cons x pre)
  then show ?case by (cases x) (auto split: sum.splits)
qed

subsection \<open>When every capability succeeds\<close>




subsection \<open>Runs in the concrete world\<close>

lemmas eval_defs =
  init_world_def init_generation_kwargs_def
  get_rewards_def gen_one_def sampler_call_def output_length_sampler_def LengthSampler_def
  output_min_length_def output_max_length_def squeeze_slice_last_def slice_last_def
  getitem_def setitem_def sent_kwargs_def Let_def iteration_def

lemmas demo_defs = demo_env_def demo_world_def demo_batch_def demo_classify_def

lemma demo_collate: "collator [demo_record] = Inr demo_batch"
  by (simp add: collator_def demo_record_def demo_batch_def dict_keys_def dict_of_pairs_def
      getitem_def setitem_def)

lemma demo_pass:
  "get_rewards demo_env False [Tensor [10, 11]] (demo_world\<lparr>batch := demo_batch\<rparr>) =
     Inr (([[3, 4, 5, 6]], [6]), demo_world1)"
  by (simp add: eval_defs demo_env_def demo_world_def demo_batch_def demo_world1_def demo_classify_def)


lemma demo_pipe_pointwise:
  "\<forall>texts outs. sentiment_pipe demo_env texts sent_kwargs = Inr outs \<longrightarrow>
     outs = map demo_classify texts"
  by (auto simp: demo_env_def)

lemma demo_pipe_lengths:
  "\<forall>texts outs. sentiment_pipe demo_env texts sent_kwargs = Inr outs \<longrightarrow> length outs = length texts"
  by (auto simp: demo_env_def)

lemma demo_input_ids: "getitem demo_batch ''input_ids'' = Inr [Tensor [10, 11]]"
  by (simp add: getitem_def demo_batch_def)








lemma demo_pass_two:
  "get_rewards demo_env False [Tensor [10, 11], Tensor [12, 13, 14]]
     (demo_world\<lparr>batch := demo_batch_two\<rparr>) =
   Inr (([[3, 4, 5, 6], [2, 3, 4, 5, 6]], [6, 8]), demo_world_two)"
  by (simp add: demo_world_two_def final_world_def eval_defs demo_defs demo_batch_two_def)

lemma demo_two_query:
  "getitem (batch demo_world_two) ''query'' = Inr [Str ''ab'', Str ''cde'']"
  by (simp add: demo_world_two_def final_world_def eval_defs demo_defs demo_batch_two_def)

lemma demo_two_response:
  "getitem (batch demo_world_two) ''response'' = Inr [Str ''xxxx'', Str ''xxxxx'']"
  by (simp add: demo_world_two_def final_world_def eval_defs demo_defs demo_batch_two_def)

lemma failing_first: "run_loop failing_env demo_world [Inr demo_batch] = Inr ((), failing_world1)"
  by (simp add: failing_world1_def final_world_def failing_env_def eval_defs demo_defs)

lemma failing_second:
  "iteration failing_env failing_world1 demo_batch = Inl (ExternalError 7, failing_world2)"
  by (simp add: failing_world2_def failing_world1_def final_world_def failing_env_def eval_defs demo_defs)

lemma failing_last_call:
  "event_error (last (trace failing_world2)) = Some (ExternalError 7)"
  by (simp add: failing_world2_def failing_world1_def final_world_def failing_env_def eval_defs demo_defs)

section \<open>The claims\<close>

subsection \<open>C1: sampled length and length of the response\<close>




subsection \<open>C2: the reward and the positive class\<close>

text \<open>
  C2 says the reward is the score of the positive class, selected by its label.  The
  script reads the entry at index 1 and compares no label (see
  \<open>get_rewards_reads_index_one\<close>), so on a ranked output it returns the score of the
  class that lost (\<open>ranked_reward_is_losing_score\<close>).  At the text \<^verbatim>\<open>abxxxx\<close>, which
  the classifier rates positive with score 6 against \<open>- 1\<close>, the ranked output lists the
  positive class first: the reward \<^verbatim>\<open>get_rewards\<close> returns is \<open>- 1\<close>, the score of the
  negative class, while the score selected by the positive label is 6.
\<close>

theorem reward_misses_positive_class:
  "get_rewards ranked_env False [Tensor [10, 11]] (demo_world\<lparr>batch := demo_batch\<rparr>) =
     Inr (([[3, 4, 5, 6]], [- 1]),
       \<lparr>np_rng = 1, trainer = 1,
        generation_kwargs = (init_generation_kwargs demo_env)\<lparr>max_new_tokens := Some 4\<rparr>,
        batch = demo_batch @ [(''response'', [Str ''xxxx''])],
        trace =
          [Generate (Tensor [10, 11]) ((init_generation_kwargs demo_env)\<lparr>max_new_tokens := Some 4\<rparr>)
             (Inr [10, 11, 1, 2, 3, 4, 5, 6]),
           SentimentPipe [''abxxxx''] sent_kwargs
             (Inr [[\<lparr>label = ''POSITIVE'', score_of = 6\<rparr>,
                    \<lparr>label = ''NEGATIVE'', score_of = - 1\<rparr>]])]\<rparr>) \<and>
   score_by_label positive_label
     [\<lparr>label = ''POSITIVE'', score_of = 6\<rparr>, \<lparr>label = ''NEGATIVE'', score_of = - 1\<rparr>] = Some 6 \<and>
   torch_tensor ranked_env 6 \<noteq> - 1"
  by (simp add: eval_defs demo_defs ranked_env_def ranked_classify_def rank_by_score_def
      score_by_label_def positive_label_def)

subsection \<open>C3: the flag \<^verbatim>\<open>ref_model\<close> is not read\<close>

text \<open>
  C3.  \<^verbatim>\<open>get_rewards\<close> does not branch on \<^verbatim>\<open>ref_model\<close>: called with \<open>True\<close> and with
  \<open>False\<close> it is the same function of the query tensors and of the world (the state of
  the random generator, the trainer, the batch), so it returns the same response
  tensors and rewards and makes the same calls to the policy trainer.
\<close>

theorem get_rewards_ignores_ref_model:
  "get_rewards env True = get_rewards env False"
  by (intro ext) (simp add: get_rewards_def)

subsection \<open>C4: positional alignment\<close>

text \<open>
  C4.  Let the classifier score each text on its own: whenever it returns, its output
  for a list of texts is the list of its outputs for each text.  Then in every pass of
  \<^verbatim>\<open>get_rewards\<close> that returns, the \<open>i\<close>-th reward is read from the classifier output
  for the concatenation of the \<open>i\<close>-th query text and the \<open>i\<close>-th response text, the
  latter being the decoding of the \<open>i\<close>-th response tensor: no other item of the batch
  enters it.  The run that follows has two items with different texts and rewards.
\<close>

theorem rewards_positionally_aligned:
  assumes "get_rewards env ref_model qts w = Inr ((rts, rews), w')"
    and "\<forall>texts outs. sentiment_pipe env texts sent_kwargs = Inr outs \<longrightarrow>
           outs = map classify texts"
  shows "\<exists>queries responses.
           getitem (batch w') ''query'' = Inr queries \<and>
           getitem (batch w') ''response'' = Inr responses \<and>
           length responses = length rts \<and>
           length rews = min (length queries) (length responses) \<and>
           (\<forall>i < length rews. \<exists>q r.
               queries ! i = Str q \<and> responses ! i = Str r \<and>
               decode env (rts ! i) = Inr r \<and>
               reward_of env (classify (q @ r)) = Inr (rews ! i))"
proof -
  from get_rewards_scoring[OF assms(1)] obtain decoded queries texts outs where
    d: "try_map (decode env) rts = Inr decoded" and
    q': "getitem (batch w') ''query'' = Inr queries" and
    r': "getitem (batch w') ''response'' = Inr (map Str decoded)" and
    lt: "length texts = min (length queries) (length rts)" and
    items: "\<forall>i < length texts. \<exists>q. queries ! i = Str q \<and> texts ! i = q @ decoded ! i" and
    p: "sentiment_pipe env texts sent_kwargs = Inr outs" and
    r: "try_map (reward_of env) outs = Inr rews"
    by blast
  have ld: "length decoded = length rts" using try_map_length[OF d] .
  have outs: "outs = map classify texts" using p assms(2) by blast
  have lr: "length rews = length texts" using try_map_length[OF r] outs by simp
  have each: "\<exists>q r. queries ! i = Str q \<and> map Str decoded ! i = Str r \<and>
               decode env (rts ! i) = Inr r \<and> reward_of env (classify (q @ r)) = Inr (rews ! i)"
    if i: "i < length rews" for i
  proof -
    have it: "i < length texts" using i lr by simp
    then have ir: "i < length rts" using lt by simp
    from items it obtain q where q: "queries ! i = Str q" "texts ! i = q @ decoded ! i" by blast
    have "reward_of env (outs ! i) = Inr (rews ! i)"
      using try_map_nth[OF r, of i] it outs by simp
    then have "reward_of env (classify (q @ decoded ! i)) = Inr (rews ! i)"
      using outs it q by simp
    moreover have "decode env (rts ! i) = Inr (decoded ! i)"
      using try_map_nth[OF d ir] .
    moreover have "map Str decoded ! i = Str (decoded ! i)" using ir ld by simp
    ultimately show ?thesis using q by blast
  qed
  show ?thesis
    using q' r' ld lr lt each by (intro exI[of _ queries] exI[of _ "map Str decoded"]) simp
qed

theorem rewards_positionally_aligned_witness:
  "get_rewards demo_env False [Tensor [10, 11], Tensor [12, 13, 14]]
     (demo_world\<lparr>batch := demo_batch_two\<rparr>) =
     Inr (([[3, 4, 5, 6], [2, 3, 4, 5, 6]], [6, 8]), demo_world_two) \<and>
   getitem (batch demo_world_two) ''query'' = Inr [Str ''ab'', Str ''cde''] \<and>
   getitem (batch demo_world_two) ''response'' = Inr [Str ''xxxx'', Str ''xxxxx''] \<and>
   reward_of demo_env (demo_classify (''ab'' @ ''xxxx'')) = Inr ([6, 8 :: real] ! 0) \<and>
   reward_of demo_env (demo_classify (''cde'' @ ''xxxxx'')) = Inr ([6, 8 :: real] ! 1)"
proof -
  note th = rewards_positionally_aligned[OF demo_pass_two demo_pipe_pointwise]
  from th obtain queries responses where
    q: "getitem (batch demo_world_two) ''query'' = Inr queries" and
    r: "getitem (batch demo_world_two) ''response'' = Inr responses" and
    each: "\<forall>i < length [6, 8 :: real]. \<exists>q r. queries ! i = Str q \<and> responses ! i = Str r \<and>
             reward_of demo_env (demo_classify (q @ r)) = Inr ([6, 8 :: real] ! i)"
    by blast
  have qs: "queries = [Str ''ab'', Str ''cde'']" using q demo_two_query by simp
  have rs: "responses = [Str ''xxxx'', Str ''xxxxx'']" using r demo_two_response by simp
  from each[rule_format, of 0] qs rs
  have a0: "reward_of demo_env (demo_classify (''ab'' @ ''xxxx'')) = Inr ([6, 8 :: real] ! 0)"
    by auto
  from each[rule_format, of 1] qs rs
  have a1: "reward_of demo_env (demo_classify (''cde'' @ ''xxxxx'')) = Inr ([6, 8 :: real] ! 1)"
    by auto
  show ?thesis
    by (intro conjI demo_pass_two demo_two_query demo_two_response a0 a1)
qed

subsection \<open>C5: the three lists have the same length\<close>

text \<open>
  C5.  For a batch the collator built from \<open>data\<close>, and a classifier that returns one
  output per text, the query tensors are as many as the records of \<open>data\<close>, and each pass
  of \<^verbatim>\<open>get_rewards\<close> that returns (the first pass and the second pass after it) gives as
  many response tensors and as many rewards as there are query tensors.
\<close>

theorem get_rewards_lists_same_length:
  assumes "collator data = Inr b" and "getitem b ''input_ids'' = Inr qts"
    and "\<forall>texts outs. sentiment_pipe env texts sent_kwargs = Inr outs \<longrightarrow> length outs = length texts"
    and "get_rewards env False qts (w\<lparr>batch := b\<rparr>) = Inr ((rts, rews), w1)"
  shows "length qts = length data \<and> length rts = length qts \<and> length rews = length qts \<and>
         (\<forall>rrts rrews w2. get_rewards env True qts w1 = Inr ((rrts, rrews), w2) \<longrightarrow>
            length rrts = length qts \<and> length rrews = length qts)"
proof -
  have lq: "length qts = length data" using collator_column_length[OF assms(1,2)] .
  from get_rewards_scoring[OF assms(4)] obtain queries where
    q: "getitem (batch (w\<lparr>batch := b\<rparr>)) ''query'' = Inr queries" by blast
  then have "getitem b ''query'' = Inr queries" by simp
  then have lqs: "length queries = length qts"
    using collator_column_length[OF assms(1)] lq by simp
  from pass_lengths[OF q lqs assms(3,4)] have
    1: "length rts = length qts" "length rews = length qts" and
    q1: "getitem (batch w1) ''query'' = Inr queries" by auto
  have "length rrts = length qts \<and> length rrews = length qts"
    if "get_rewards env True qts w1 = Inr ((rrts, rrews), w2)" for rrts rrews w2
    using pass_lengths[OF q1 lqs assms(3) that] by simp
  with lq 1 show ?thesis by blast
qed

theorem get_rewards_lists_same_length_witness:
  "collator [demo_record] = Inr demo_batch \<and>
   getitem demo_batch ''input_ids'' = Inr [Tensor [10, 11]] \<and>
   get_rewards demo_env False [Tensor [10, 11]] (demo_world\<lparr>batch := demo_batch\<rparr>) =
     Inr (([[3, 4, 5, 6]], [6]), demo_world1) \<and>
   length [Tensor [10, 11]] = length [demo_record] \<and>
   length [[3, 4, 5, 6 :: int]] = length [Tensor [10, 11]] \<and>
   length [6 :: real] = length [Tensor [10, 11]]"
  using get_rewards_lists_same_length[OF demo_collate demo_input_ids demo_pipe_lengths demo_pass]
    demo_collate demo_input_ids demo_pass
  by blast

subsection \<open>C6: one update per batch, then the log\<close>



subsection \<open>C7: a raise ends the loop\<close>

text \<open>
  C7.  The loop catches nothing.  Whatever the batches, if a call made during the loop
  (a generation, a scoring, an update or a logging call) raised \<open>e\<close>, then it is the last
  call the loop made, so no later batch was processed and nothing was retried, and the
  loop itself ended by raising \<open>e\<close>.  Moreover, if the loop completes the batches \<open>pre\<close>
  and the iteration for the next batch raises, the loop raises the same exception in
  the same world whatever batches follow.
\<close>

theorem training_loop_fails_fast:
  "(\<exists>evs. trace (final_world (run_loop env w batches)) = trace w @ evs \<and>
       (\<forall>pre ev post e. evs = pre @ ev # post \<and> event_error ev = Some e \<longrightarrow>
           post = [] \<and> (\<exists>w'. run_loop env w batches = Inl (e, w')))) \<and>
   (\<forall>pre b rest w1 e w2.
       run_loop env w pre = Inr ((), w1) \<and> iteration env w1 b = Inl (e, w2) \<longrightarrow>
       run_loop env w (pre @ Inr b # rest) = Inl (e, w2))"
proof (intro conjI allI impI)
  fix pre b rest w1 e w2
  assume "run_loop env w pre = Inr ((), w1) \<and> iteration env w1 b = Inl (e, w2)"
  then show "run_loop env w (pre @ Inr b # rest) = Inl (e, w2)"
    by (simp add: run_loop_append)
next
  let ?r = "run_loop env w batches"
  have ok: "outcome_ok (trace w) ?r" by (rule run_loop_outcome)
  show "\<exists>evs. trace (final_world ?r) = trace w @ evs \<and>
       (\<forall>pre ev post e. evs = pre @ ev # post \<and> event_error ev = Some e \<longrightarrow>
           post = [] \<and> (\<exists>w'. ?r = Inl (e, w')))"
  proof (cases ?r)
    case (Inr p)
    then obtain w' where r: "?r = Inr ((), w')" by (cases p) auto
    with ok obtain evs where t: "trace w' = trace w @ evs" and c: "clean evs"
      by (auto simp: outcome_ok_def)
    have "event_error ev = None" if "ev \<in> set evs" for ev
      using c that by (auto simp: clean_def list_all_iff)
    then have "\<forall>pre ev post e. evs = pre @ ev # post \<and> event_error ev = Some e \<longrightarrow>
           post = [] \<and> (\<exists>w'. ?r = Inl (e, w'))"
      by fastforce
    then show ?thesis using t r by (auto simp: final_world_def)
  next
    case (Inl p)
    then obtain e0 w' where r: "?r = Inl (e0, w')" by (cases p) auto
    with ok obtain evs where t: "trace w' = trace w @ evs" and c: "clean (butlast evs)"
      and l: "evs = [] \<or> event_error (last evs) = None \<or> event_error (last evs) = Some e0"
      by (auto simp: outcome_ok_def)
    have "post = [] \<and> (\<exists>w'. ?r = Inl (e, w'))"
      if "evs = pre @ ev # post" "event_error ev = Some e" for pre ev post e
    proof -
      have p: "post = []"
      proof (rule ccontr)
        assume "post \<noteq> []"
        then have "butlast evs = pre @ ev # butlast post"
          using that(1) by (simp add: butlast_append)
        with c that(2) show False by simp
      qed
      then have "last evs = ev" using that(1) by simp
      with l that have "e = e0" by auto
      with p r show ?thesis by simp
    qed
    then show ?thesis using t r by (auto simp: final_world_def)
  qed
qed

theorem training_loop_fails_fast_witness:
  "run_loop failing_env demo_world [Inr demo_batch] = Inr ((), failing_world1) \<and>
   iteration failing_env failing_world1 demo_batch = Inl (ExternalError 7, failing_world2) \<and>
   event_error (last (trace failing_world2)) = Some (ExternalError 7) \<and>
   run_loop failing_env demo_world ([Inr demo_batch] @ Inr demo_batch # [Inr demo_batch]) =
     Inl (ExternalError 7, failing_world2)"
proof -
  note th = training_loop_fails_fast[of failing_env demo_world "[]", THEN conjunct2, rule_format,
      OF conjI[OF failing_first failing_second], of "[Inr demo_batch]"]
  show ?thesis
    by (intro conjI failing_first failing_second failing_last_call th)
qed

subsection \<open>C8: a dataset of one record\<close>



subsection \<open>C9: the collator keeps positions\<close>

text \<open>
  C9.  For a non-empty list of records each of which has every key of the first one,
  the collator returns a dict with the keys of the first record, and under each such key
  a list as long as \<open>data\<close> whose \<open>i\<close>-th element is the value the \<open>i\<close>-th record has
  under that key.
\<close>

theorem collator_positional:
  assumes "data \<noteq> []"
    and "\<forall>d \<in> set data. \<forall>k \<in> set (dict_keys (hd data)). map_of d k \<noteq> None"
  shows "\<exists>out. collator data = Inr out \<and> set (dict_keys out) = set (dict_keys (hd data)) \<and>
           (\<forall>k \<in> set (dict_keys (hd data)). \<exists>col. getitem out k = Inr col \<and> length col = length data \<and>
              (\<forall>i < length data. getitem (data ! i) k = Inr (col ! i)))"
proof -
  let ?g = "\<lambda>k. map (\<lambda>d. the (map_of d k)) data"
  let ?out = "dict_of_pairs (map (\<lambda>k. (k, ?g k)) (dict_keys (hd data)))"
  have c: "collator data = Inr ?out"
    using assms by (intro collator_total) auto
  have keys: "set (dict_keys ?out) = set (dict_keys (hd data))"
    by (simp add: dict_of_pairs_def dict_keys_foldl_setitem image_image) (simp add: dict_keys_def)
  have cols: "\<exists>col. getitem ?out k = Inr col \<and> length col = length data \<and>
              (\<forall>i < length data. getitem (data ! i) k = Inr (col ! i))"
    if k: "k \<in> set (dict_keys (hd data))" for k
  proof -
    have "getitem ?out k = Inr (?g k)"
      using k by (simp add: getitem_def map_of_dict_of_pairs_fun)
    moreover have "getitem (data ! i) k = Inr (?g k ! i)" if "i < length data" for i
      using assms(2) k that by (auto simp: getitem_def split: option.splits)
    ultimately show ?thesis by auto
  qed
  show ?thesis using c keys cols by blast
qed

theorem collator_positional_witness:
  "\<exists>out. collator [demo_record, demo_record2] = Inr out \<and>
     set (dict_keys out) = set (dict_keys (hd [demo_record, demo_record2])) \<and>
     (\<forall>k \<in> set (dict_keys (hd [demo_record, demo_record2])). \<exists>col.
        getitem out k = Inr col \<and> length col = length [demo_record, demo_record2] \<and>
        (\<forall>i < length [demo_record, demo_record2].
           getitem ([demo_record, demo_record2] ! i) k = Inr (col ! i)))"
  by (rule collator_positional) (simp_all add: demo_record_def demo_record2_def dict_keys_def)

subsection \<open>C10: what the logging sink receives\<close>



end
